theory Spec2Isabelle
  imports Complex_Main "HOL-Library.Sublist" "HOL-Library.Multiset"
begin

section \<open>Python values used by the pipeline\<close>

subsection \<open>Strings\<close>

text \<open>
  A Python \<open>str\<close> is modelled as a \<open>string\<close>, one \<open>char\<close> per character, for texts
  whose code points lie below 256. \<open>py_isspace\<close> is \<open>str.isspace\<close> on that range and
  \<open>py_lower_char\<close> is \<open>str.lower\<close> on it (ASCII and Latin-1 capital letters).
\<close>

definition py_isspace :: "char \<Rightarrow> bool" where
  "py_isspace c = (of_char c \<in> {9, 10, 11, 12, 13, 28, 29, 30, 31, 32, 133, 160 :: nat})"

definition lstrip :: "string \<Rightarrow> string" where
  "lstrip s = dropWhile py_isspace s"

definition rstrip :: "string \<Rightarrow> string" where
  "rstrip s = rev (dropWhile py_isspace (rev s))"

definition strip :: "string \<Rightarrow> string" where
  "strip s = rstrip (lstrip s)"

definition py_lower_char :: "char \<Rightarrow> char" where
  "py_lower_char c =
     (let n = (of_char c :: nat)
      in if (65 \<le> n \<and> n \<le> 90) \<or> (192 \<le> n \<and> n \<le> 222 \<and> n \<noteq> 215)
         then char_of (n + 32) else c)"

definition lower :: "string \<Rightarrow> string" where
  "lower s = map py_lower_char s"

abbreviation nl :: char where
  "nl \<equiv> CHR 0x0A"

text \<open>\<open>startswith p s\<close> is \<open>s.startswith(p)\<close>; \<open>py_in sub s\<close> is the test \<open>sub in s\<close>.\<close>

definition startswith :: "string \<Rightarrow> string \<Rightarrow> bool" where
  "startswith p s = (take (length p) s = p)"

fun py_in :: "string \<Rightarrow> string \<Rightarrow> bool" where
  "py_in sub [] = (sub = [])"
| "py_in sub (c # cs) = (startswith sub (c # cs) \<or> py_in sub cs)"

text \<open>Truthiness of an \<open>Optional[str]\<close>: \<open>None\<close> and the empty text are falsy.\<close>

fun truthy :: "string option \<Rightarrow> bool" where
  "truthy None = False"
| "truthy (Some s) = (s \<noteq> [])"

subsection \<open>Floats\<close>

text \<open>
  The pipeline only compares floats and takes \<open>min\<close> and \<open>max\<close> of them; it never does
  arithmetic on a confidence. A float is therefore the real number it denotes, or one of
  the three special values that \<open>float(text)\<close> can also return. The comparisons are
  Python's: every comparison with \<open>NaN\<close> is false.
\<close>

datatype pyfloat = Finite real | PosInf | NegInf | NaN

fun float_lt :: "pyfloat \<Rightarrow> pyfloat \<Rightarrow> bool" where
  "float_lt (Finite a) (Finite b) = (a < b)"
| "float_lt (Finite a) PosInf = True"
| "float_lt NegInf (Finite b) = True"
| "float_lt NegInf PosInf = True"
| "float_lt _ _ = False"

fun float_le :: "pyfloat \<Rightarrow> pyfloat \<Rightarrow> bool" where
  "float_le (Finite a) (Finite b) = (a \<le> b)"
| "float_le (Finite a) PosInf = True"
| "float_le NegInf (Finite b) = True"
| "float_le NegInf PosInf = True"
| "float_le PosInf PosInf = True"
| "float_le NegInf NegInf = True"
| "float_le _ _ = False"




subsection \<open>Exceptions\<close>

text \<open>
  An exception is its class and the text \<open>str(e)\<close>. \<open>JSONDecodeError\<close> and pydantic's
  \<open>ValidationError\<close> are subclasses of \<open>ValueError\<close>; \<open>OtherError\<close> stands for every
  class that is none of the others (a network error of the collaborator, for example).
\<close>

datatype exn =
    ValueError string
  | JSONDecodeError string
  | ValidationError string
  | AttributeError string
  | TypeError string
  | KeyError string
  | UnboundLocalError string
  | ZeroDivisionError string
  | RecursionError string
  | OtherError string

fun str_exn :: "exn \<Rightarrow> string" where
  "str_exn (ValueError m) = m"
| "str_exn (JSONDecodeError m) = m"
| "str_exn (ValidationError m) = m"
| "str_exn (AttributeError m) = m"
| "str_exn (TypeError m) = m"
| "str_exn (KeyError m) = m"
| "str_exn (UnboundLocalError m) = m"
| "str_exn (ZeroDivisionError m) = m"
| "str_exn (RecursionError m) = m"
| "str_exn (OtherError m) = m"


subsection \<open>JSON values\<close>

text \<open>
  What \<open>json.loads\<close> returns. A \<open>JObj\<close> lists the items of a Python \<open>dict\<close>, so its
  keys are distinct.
\<close>

datatype json =
    JNull
  | JBool bool
  | JInt int
  | JFloat pyfloat
  | JStr string
  | JArr "json list"
  | JObj "(string \<times> json) list"

text \<open>\<open>for x in v\<close>: a list gives its elements, a dict its keys, a text its characters.\<close>

fun py_iter :: "json \<Rightarrow> exn + json list" where
  "py_iter (JArr xs) = Inr xs"
| "py_iter (JObj kvs) = Inr (map (\<lambda>kv. JStr (fst kv)) kvs)"
| "py_iter (JStr s) = Inr (map (\<lambda>c. JStr [c]) s)"
| "py_iter JNull = Inl (TypeError '''NoneType' object is not iterable'')"
| "py_iter (JBool b) = Inl (TypeError '''bool' object is not iterable'')"
| "py_iter (JInt n) = Inl (TypeError '''int' object is not iterable'')"
| "py_iter (JFloat x) = Inl (TypeError '''float' object is not iterable'')"

text \<open>\<open>v.get(key, default)\<close>: only a dict has the method.\<close>

fun type_name :: "json \<Rightarrow> string" where
  "type_name JNull = ''NoneType''"
| "type_name (JBool b) = ''bool''"
| "type_name (JInt n) = ''int''"
| "type_name (JFloat x) = ''float''"
| "type_name (JStr s) = ''str''"
| "type_name (JArr xs) = ''list''"
| "type_name (JObj kvs) = ''dict''"

fun py_get :: "json \<Rightarrow> string \<Rightarrow> json \<Rightarrow> exn + json" where
  "py_get (JObj kvs) key dflt = Inr (case map_of kvs key of Some v \<Rightarrow> v | None \<Rightarrow> dflt)"
| "py_get v key dflt =
     Inl (AttributeError
            ([CHR 0x27] @ type_name v @ ''' object has no attribute 'get'' @ [CHR 0x27]))"

subsection \<open>Text search and printing\<close>

text \<open>
  \<open>s.find(c)\<close> and \<open>s.rfind(c)\<close> for a one-character \<open>c\<close>: the first and the last index
  of \<open>c\<close>, or \<open>-1\<close>. \<open>py_slice s a b\<close> is \<open>s[a:b]\<close> for \<open>0 \<le> a \<le> b\<close>.
\<close>

definition py_find :: "char \<Rightarrow> string \<Rightarrow> int" where
  "py_find c s = (if c \<in> set s then int (length (takeWhile (\<lambda>x. x \<noteq> c) s)) else - 1)"

definition py_rfind :: "char \<Rightarrow> string \<Rightarrow> int" where
  "py_rfind c s =
     (if c \<in> set s
      then int (length s) - 1 - int (length (takeWhile (\<lambda>x. x \<noteq> c) (rev s)))
      else - 1)"

definition py_slice :: "string \<Rightarrow> int \<Rightarrow> int \<Rightarrow> string" where
  "py_slice s a b = take (nat (b - a)) (drop (nat a) s)"

text \<open>
  The spec's words for the guard \<open>json_start != -1 and json_end > json_start\<close>: the
  closing character \<open>b\<close> occurs somewhere after the first opening character \<open>a\<close>.
\<close>

definition bracket_pair :: "char \<Rightarrow> char \<Rightarrow> string \<Rightarrow> bool" where
  "bracket_pair a b s = (b \<in> set (dropWhile (\<lambda>x. x \<noteq> a) s))"

text \<open>\<open>str(n)\<close> for a length \<open>n\<close>.\<close>

function str_nat :: "nat \<Rightarrow> string" where
  "str_nat n =
     (if n < 10 then [''0123456789'' ! n]
      else str_nat (n div 10) @ [''0123456789'' ! (n mod 10)])"
  by pat_completeness auto
termination
  by (relation "measure id") auto

declare str_nat.simps [simp del]

section \<open>models.py\<close>

record ActionItem =
  task :: string
  owner :: string
  deadline :: "string option"
  confidence :: pyfloat
  source_chunk :: "int option"
  speaker :: "string option"
  "notes" :: "string option"

text \<open>
  A field name belongs to one record and must differ from the names of the parameters of
  the functions below. The fields \<open>items\<close>, \<open>chunk_index\<close> and \<open>total_chunks\<close> of
  \<open>MapPhaseOutput\<close> therefore carry the prefix \<open>map_\<close>, and the fields \<open>items\<close> and
  \<open>notes\<close> of \<open>ReducePhaseOutput\<close> the prefix \<open>reduce_\<close>.
\<close>

record MapPhaseOutput =
  map_items :: "ActionItem list"
  map_chunk_index :: int
  map_total_chunks :: int
  processing_time :: real
  error :: "string option"

record ReducePhaseOutput =
  reduce_items :: "ActionItem list"
  duplicates_removed :: int
  fields_filled :: int
  total_processing_time :: real
  reduce_notes :: "string option"

text \<open>
  The stages from confidence scoring onwards receive lists of \<open>ActionItem\<close> objects and
  assign to their fields in place. An object is an address, and the store maps every
  address to the object's current fields.
\<close>

type_synonym ref = nat
type_synonym store = "ref \<Rightarrow> ActionItem"

section \<open>Library functions taken as parameters\<close>

text \<open>
  Functions of the Python runtime and of third-party libraries whose code is not part of
  the repository are parameters of the model, collected in one record:
  \<^item> \<open>float_str x\<close>: the text an f-string prints for the float \<open>x\<close>;
  \<^item> \<open>py_float s\<close>: \<open>float(s)\<close>, \<open>None\<close> when it raises \<open>ValueError\<close>;
  \<^item> \<open>json_loads s\<close>: \<open>json.loads(s)\<close>, \<open>Inl e\<close> when it raises the exception \<open>e\<close>: a
    \<open>JSONDecodeError\<close> for a text that is not JSON, a \<open>RecursionError\<close> for a text
    nested too deeply;
  \<^item> \<open>dumps_items xs\<close>: \<open>json.dumps([item.dict() for item in xs], indent=2)\<close>;
  \<^item> \<open>make_item d\<close>: pydantic's \<open>ActionItem(**d)\<close> for a dict \<open>d\<close>, \<open>None\<close> when the
    validation of a field fails;
  \<^item> \<open>int_field v\<close>: pydantic's validation of the value \<open>v\<close> for a field of type
    \<open>int\<close>, \<open>None\<close> when it fails, and \<open>validation_text a b\<close>: the text of the
    \<open>ValidationError\<close> of a \<open>ReducePhaseOutput\<close> whose two counters were given as
    \<open>a\<close> and \<open>b\<close>.
\<close>

record pylib =
  float_str :: "pyfloat \<Rightarrow> string"
  py_float :: "string \<Rightarrow> pyfloat option"
  json_loads :: "string \<Rightarrow> exn + json"
  dumps_items :: "ActionItem list \<Rightarrow> string"
  make_item :: "(string \<times> json) list \<Rightarrow> ActionItem option"
  int_field :: "json \<Rightarrow> int option"
  validation_text :: "json \<Rightarrow> json \<Rightarrow> string"

section \<open>The outside world\<close>

text \<open>
  The text-generation service and the wall clock are outside the program. The outside
  is an abstract state \<open>'w\<close>; \<open>llm_invoke\<close> is \<open>self.llm.invoke(prompt).content\<close>, which
  raises or returns a text, and \<open>time_time\<close> is \<open>time.time()\<close>; both may change the
  outside, so a second call may answer differently. The program's state records, next to
  the outside, every prompt sent so far. The subtraction of two clock readings is done on
  real numbers.
\<close>

record 'w env =
  llm_invoke :: "string \<Rightarrow> 'w \<Rightarrow> (exn + string) \<times> 'w"
  time_time :: "'w \<Rightarrow> real \<times> 'w"

record 'w world =
  llm_calls :: "string list"
  outside :: 'w

definition invoke :: "'w env \<Rightarrow> string \<Rightarrow> 'w world \<Rightarrow> (exn + string) \<times> 'w world" where
  "invoke E prompt s =
     (case llm_invoke E prompt (outside s) of
        (reply, w) \<Rightarrow> (reply, \<lparr>llm_calls = llm_calls s @ [prompt], outside = w\<rparr>))"

definition now :: "'w env \<Rightarrow> 'w world \<Rightarrow> real \<times> 'w world" where
  "now E s = (case time_time E (outside s) of (t, w) \<Rightarrow> (t, s\<lparr>outside := w\<rparr>))"

section \<open>validation.py\<close>

text \<open>
  \<open>ValidationLayer\<close> has one attribute, \<open>confidence_threshold\<close>, which is the first
  argument of \<open>validate_item\<close> here. Calls of the logger do not change an item or a
  returned value and are left out.
\<close>

definition vague_terms :: "string list" where
  "vague_terms = [''something'', ''stuff'', ''thing'', ''whatever'', ''etc'']"

definition validate_item :: "pylib \<Rightarrow> pyfloat \<Rightarrow> ActionItem \<Rightarrow> bool \<times> string" where
  "validate_item L confidence_threshold item =
     (if float_lt (confidence item) confidence_threshold
      then (False, ''Confidence too low ('' @ float_str L (confidence item) @ '' < ''
                     @ float_str L confidence_threshold @ '')'')
      else if task item = [] \<or> strip (task item) = []
      then (False, ''Task is empty'')
      else if list_ex (\<lambda>term. py_in term (lower (task item))) vague_terms
      then (False, ''Task description is too vague'')
      else (True, ''Valid''))"

text \<open>
  \<open>validate_batch\<close>: the loop appends each object to \<open>valid_items\<close> or to
  \<open>invalid_items\<close>; the two accumulators are the second and third argument.
\<close>

fun validate_loop ::
  "pylib \<Rightarrow> pyfloat \<Rightarrow> store \<Rightarrow> ref list \<Rightarrow> ref list \<Rightarrow> ref list \<Rightarrow> ref list \<times> ref list" where
  "validate_loop L th h [] valid_items invalid_items = (valid_items, invalid_items)"
| "validate_loop L th h (item # rest) valid_items invalid_items =
     (if fst (validate_item L th (h item))
      then validate_loop L th h rest (valid_items @ [item]) invalid_items
      else validate_loop L th h rest valid_items (invalid_items @ [item]))"

definition validate_batch :: "pylib \<Rightarrow> pyfloat \<Rightarrow> store \<Rightarrow> ref list \<Rightarrow> ref list \<times> ref list" where
  "validate_batch L th h items = validate_loop L th h items [] []"

text \<open>
  \<open>handle_missing_fields\<close> and the body of the loop of \<open>handle_edge_cases\<close> read and
  assign the fields of one object only: each is a function on the object's fields, one
  assignment after the other, and the loop writes the result back at the object's address.
\<close>

definition handle_missing_fields :: "ActionItem \<Rightarrow> ActionItem" where
  "handle_missing_fields item0 =
     (let item1 = (if owner item0 = [] \<or> strip (owner item0) = []
                   then item0\<lparr>owner := ''Unassigned''\<rparr> else item0);
          item2 = (if (case deadline item1 of None \<Rightarrow> True | Some d \<Rightarrow> d = [] \<or> strip d = [])
                   then item1\<lparr>deadline := Some ''Not specified''\<rparr> else item1);
          item3 = (if truthy (notes item2) then item2 else item2\<lparr>notes := None\<rparr>)
      in item3)"

definition vague_deadlines :: "string list" where
  "vague_deadlines = [''soon'', ''ASAP'', ''when possible'', ''this week'']"

text \<open>
  The block \<open>if item.deadline: ...\<close> of the loop. \<open>text_of\<close> reads an \<open>Optional[str]\<close>
  where the code knows it to be a text: \<open>item.deadline\<close> under \<open>if item.deadline\<close>, and
  \<open>item.notes\<close> once \<open>if not item.notes: item.notes = ""\<close> has run.
\<close>

fun text_of :: "string option \<Rightarrow> string" where
  "text_of None = []"
| "text_of (Some s) = s"

definition flag_vague_deadline :: "ActionItem \<Rightarrow> ActionItem" where
  "flag_vague_deadline item0 =
     (if truthy (deadline item0)
      then if list_ex (\<lambda>term. py_in term (text_of (deadline item0))) vague_deadlines
           then (let item1 = (if truthy (notes item0) then item0 else item0\<lparr>notes := Some []\<rparr>)
                 in item1\<lparr>notes :=
                      Some (text_of (notes item1) @ '' [DEADLINE NEEDS CLARIFICATION]'')\<rparr>)
           else item0
      else item0)"

fun edge_loop :: "ref list \<Rightarrow> ref list \<Rightarrow> store \<Rightarrow> ref list \<times> store" where
  "edge_loop [] processed_items h = (processed_items, h)"
| "edge_loop (item # rest) processed_items h =
     edge_loop rest (processed_items @ [item])
       (h(item := flag_vague_deadline (handle_missing_fields (h item))))"

definition handle_edge_cases :: "ref list \<Rightarrow> store \<Rightarrow> ref list \<times> store" where
  "handle_edge_cases items h = edge_loop items [] h"

text \<open>One iteration of the loop of \<open>handle_edge_cases\<close>, as a function on the store.\<close>

definition edge_step :: "ref \<Rightarrow> store \<Rightarrow> store" where
  "edge_step item h = h(item := flag_vague_deadline (handle_missing_fields (h item)))"

section \<open>map_chain.py\<close>

text \<open>
  \<open>MapChain\<close> and \<open>ReduceChain\<close> have the same attributes. The prompt files are not part
  of the sources: \<open>system_prompt\<close> is a parameter, and \<open>user_prompt_template\<close> is the
  template's method \<open>format\<close> applied to its one keyword argument, which returns the
  prompt or raises. The attribute \<open>llm\<close> is the \<open>llm_invoke\<close> of the environment.
\<close>

record Chain =
  system_prompt :: string
  user_prompt_template :: "string \<Rightarrow> exn + string"

type_synonym MapChain = Chain
type_synonym ReduceChain = Chain

definition full_prompt :: "Chain \<Rightarrow> string \<Rightarrow> string" where
  "full_prompt self user_prompt = system_prompt self @ ''\<newline>\<newline>'' @ user_prompt"

text \<open>The statements of \<open>extract\<close> from \<open>json_start = ...\<close> to the value of \<open>items_data\<close>.\<close>

definition locate_array :: "pylib \<Rightarrow> string \<Rightarrow> exn + json" where
  "locate_array L response_text =
     (let json_start = py_find CHR ''['' response_text;
          json_end = py_rfind CHR '']'' response_text + 1
      in if json_start \<noteq> - 1 \<and> json_end > json_start
         then json_loads L (py_slice response_text json_start json_end)
         else Inr (JArr []))"

text \<open>
  The loop over \<open>items_data\<close>. \<open>ActionItem(**item_data)\<close> raises for a value that is not
  a dict and for a dict that pydantic refuses; the loop catches both and goes on.
\<close>

fun items_loop :: "pylib \<Rightarrow> int \<Rightarrow> json list \<Rightarrow> ActionItem list \<Rightarrow> ActionItem list" where
  "items_loop L chunk_index [] items = items"
| "items_loop L chunk_index (JObj d # rest) items =
     (case make_item L d of
        Some item \<Rightarrow>
          items_loop L chunk_index rest (items @ [item\<lparr>source_chunk := Some chunk_index\<rparr>])
      | None \<Rightarrow> items_loop L chunk_index rest items)"
| "items_loop L chunk_index (item_data # rest) items = items_loop L chunk_index rest items"

text \<open>
  The two handlers of \<open>extract\<close> build the same record; they differ in the text of
  \<open>error\<close>. An exception raised inside the inner \<open>try\<close> reaches the inner handler when
  it is a \<open>JSONDecodeError\<close> and the outer handler otherwise.
\<close>

definition map_failure ::
  "'w env \<Rightarrow> int \<Rightarrow> int \<Rightarrow> real \<Rightarrow> string \<Rightarrow> 'w world \<Rightarrow> MapPhaseOutput \<times> 'w world" where
  "map_failure E chunk_index total_chunks start_time msg s =
     (case now E s of
        (t, s') \<Rightarrow>
          (\<lparr>map_items = [], map_chunk_index = chunk_index, map_total_chunks = total_chunks,
            processing_time = t - start_time, error = Some msg\<rparr>, s'))"

fun map_inner_text :: "exn \<Rightarrow> string" where
  "map_inner_text (JSONDecodeError m) = ''JSON parsing failed: '' @ m"
| "map_inner_text e = str_exn e"

definition parse_map_response ::
  "pylib \<Rightarrow> 'w env \<Rightarrow> string \<Rightarrow> int \<Rightarrow> int \<Rightarrow> real \<Rightarrow> 'w world \<Rightarrow> MapPhaseOutput \<times> 'w world" where
  "parse_map_response L E response_text chunk_index total_chunks start_time s =
     (case locate_array L response_text of
        Inl e \<Rightarrow> map_failure E chunk_index total_chunks start_time (map_inner_text e) s
      | Inr items_data \<Rightarrow>
          (case py_iter items_data of
             Inl e \<Rightarrow> map_failure E chunk_index total_chunks start_time (map_inner_text e) s
           | Inr elems \<Rightarrow>
               (case now E s of
                  (t, s') \<Rightarrow>
                    (\<lparr>map_items = items_loop L chunk_index elems [],
                      map_chunk_index = chunk_index, map_total_chunks = total_chunks,
                      processing_time = t - start_time, error = None\<rparr>, s'))))"

definition "extract" ::
  "pylib \<Rightarrow> 'w env \<Rightarrow> MapChain \<Rightarrow> string \<Rightarrow> int \<Rightarrow> int \<Rightarrow> 'w world \<Rightarrow> MapPhaseOutput \<times> 'w world" where
  "extract L E self chunk_text chunk_index total_chunks s0 =
     (case now E s0 of
        (start_time, s1) \<Rightarrow>
          (case user_prompt_template self chunk_text of
             Inl e \<Rightarrow> map_failure E chunk_index total_chunks start_time (str_exn e) s1
           | Inr user_prompt \<Rightarrow>
               (case invoke E (full_prompt self user_prompt) s1 of
                  (Inl e, s2) \<Rightarrow> map_failure E chunk_index total_chunks start_time (str_exn e) s2
                | (Inr response_text, s2) \<Rightarrow>
                    parse_map_response L E response_text chunk_index total_chunks start_time s2)))"

fun extract_batch_loop ::
  "pylib \<Rightarrow> 'w env \<Rightarrow> MapChain \<Rightarrow> int \<Rightarrow> int \<Rightarrow> string list \<Rightarrow> MapPhaseOutput list \<Rightarrow> 'w world
     \<Rightarrow> MapPhaseOutput list \<times> 'w world" where
  "extract_batch_loop L E self n i [] results s = (results, s)"
| "extract_batch_loop L E self n i (chunk # rest) results s =
     (case extract L E self chunk i n s of
        (result, s') \<Rightarrow> extract_batch_loop L E self n (i + 1) rest (results @ [result]) s')"

definition extract_batch ::
  "pylib \<Rightarrow> 'w env \<Rightarrow> MapChain \<Rightarrow> string list \<Rightarrow> 'w world \<Rightarrow> MapPhaseOutput list \<times> 'w world" where
  "extract_batch L E self chunks s =
     extract_batch_loop L E self (int (length chunks)) 0 chunks [] s"

section \<open>reduce_chain.py\<close>

text \<open>The statements of \<open>consolidate\<close> from \<open>json_start = ...\<close> to the value of \<open>result_data\<close>.\<close>

definition locate_object :: "pylib \<Rightarrow> string \<Rightarrow> exn + json" where
  "locate_object L response_text =
     (let json_start = py_find CHR ''{'' response_text;
          json_end = py_rfind CHR ''}'' response_text + 1
      in if json_start \<noteq> - 1 \<and> json_end > json_start
         then json_loads L (py_slice response_text json_start json_end)
         else Inr (JObj [(''items'', JArr [])]))"

fun consolidated_loop :: "pylib \<Rightarrow> json list \<Rightarrow> ActionItem list \<Rightarrow> ActionItem list" where
  "consolidated_loop L [] consolidated_items = consolidated_items"
| "consolidated_loop L (JObj d # rest) consolidated_items =
     (case make_item L d of
        Some item \<Rightarrow> consolidated_loop L rest (consolidated_items @ [item])
      | None \<Rightarrow> consolidated_loop L rest consolidated_items)"
| "consolidated_loop L (item_data # rest) consolidated_items =
     consolidated_loop L rest consolidated_items"

text \<open>
  The two handlers of \<open>consolidate\<close> return the input items; they differ in the text of
  \<open>notes\<close>.
\<close>

definition reduce_failure ::
  "'w env \<Rightarrow> ActionItem list \<Rightarrow> real \<Rightarrow> string \<Rightarrow> 'w world \<Rightarrow> ReducePhaseOutput \<times> 'w world" where
  "reduce_failure E items start_time note s =
     (case now E s of
        (t, s') \<Rightarrow>
          (\<lparr>reduce_items = items, duplicates_removed = 0, fields_filled = 0,
            total_processing_time = t - start_time, reduce_notes = Some note\<rparr>, s'))"

fun reduce_inner_text :: "exn \<Rightarrow> string" where
  "reduce_inner_text (JSONDecodeError m) = ''Consolidation failed: '' @ m"
| "reduce_inner_text e = ''Error: '' @ str_exn e"

text \<open>
  The inner \<open>try\<close> up to \<open>summary = ...\<close>: the consolidated items and the summary, or the
  exception raised on the way.
\<close>

definition read_result :: "pylib \<Rightarrow> string \<Rightarrow> exn + ActionItem list \<times> json" where
  "read_result L response_text =
     (case locate_object L response_text of
        Inl e \<Rightarrow> Inl e
      | Inr result_data \<Rightarrow>
          (case py_get result_data ''items'' (JArr []) of
             Inl e \<Rightarrow> Inl e
           | Inr items_value \<Rightarrow>
               (case py_iter items_value of
                  Inl e \<Rightarrow> Inl e
                | Inr elems \<Rightarrow>
                    (case py_get result_data ''summary'' (JObj []) of
                       Inl e \<Rightarrow> Inl e
                     | Inr summary \<Rightarrow> Inr (consolidated_loop L elems [], summary)))))"

text \<open>
  The arguments \<open>summary.get(...)\<close> of the returned record and pydantic's validation of
  the two counters.
\<close>

definition read_counters :: "pylib \<Rightarrow> json \<Rightarrow> exn + int \<times> int" where
  "read_counters L summary =
     (case py_get summary ''duplicates_removed'' (JInt 0) of
        Inl e \<Rightarrow> Inl e
      | Inr a \<Rightarrow>
          (case py_get summary ''items_needing_review'' (JInt 0) of
             Inl e \<Rightarrow> Inl e
           | Inr b \<Rightarrow>
               (case (int_field L a, int_field L b) of
                  (Some m, Some n) \<Rightarrow> Inr (m, n)
                | _ \<Rightarrow> Inl (ValidationError (validation_text L a b)))))"

definition parse_reduce_response ::
  "pylib \<Rightarrow> 'w env \<Rightarrow> string \<Rightarrow> ActionItem list \<Rightarrow> real \<Rightarrow> 'w world
     \<Rightarrow> ReducePhaseOutput \<times> 'w world" where
  "parse_reduce_response L E response_text items start_time s =
     (case read_result L response_text of
        Inl e \<Rightarrow> reduce_failure E items start_time (reduce_inner_text e) s
      | Inr (consolidated_items, summary) \<Rightarrow>
          (case now E s of
             (t, s') \<Rightarrow>
               (case read_counters L summary of
                  Inl e \<Rightarrow> reduce_failure E items start_time (reduce_inner_text e) s'
                | Inr (m, n) \<Rightarrow>
                    (\<lparr>reduce_items = consolidated_items, duplicates_removed = m,
                      fields_filled = n, total_processing_time = t - start_time,
                      reduce_notes =
                        Some (''Consolidated from '' @ str_nat (length items) @ '' items'')\<rparr>,
                     s'))))"

definition consolidate ::
  "pylib \<Rightarrow> 'w env \<Rightarrow> ReduceChain \<Rightarrow> ActionItem list \<Rightarrow> 'w world
     \<Rightarrow> ReducePhaseOutput \<times> 'w world" where
  "consolidate L E self items s0 =
     (case now E s0 of
        (start_time, s1) \<Rightarrow>
          if items = []
          then (\<lparr>reduce_items = [], duplicates_removed = 0, fields_filled = 0,
                 total_processing_time = 0, reduce_notes = None\<rparr>, s1)
          else (case user_prompt_template self (dumps_items L items) of
                  Inl e \<Rightarrow> reduce_failure E items start_time (''Error: '' @ str_exn e) s1
                | Inr user_prompt \<Rightarrow>
                    (case invoke E (full_prompt self user_prompt) s1 of
                       (Inl e, s2) \<Rightarrow>
                         reduce_failure E items start_time (''Error: '' @ str_exn e) s2
                     | (Inr response_text, s2) \<Rightarrow>
                         parse_reduce_response L E response_text items start_time s2)))"

section \<open>confidence_chain.py\<close>







section \<open>document_loader.py\<close>

text \<open>
  A \<open>Document\<close> has a text and a dict of metadata, whose values here are texts,
  integers or \<open>None\<close>. \<open>get_or m k d\<close> is \<open>m.get(k, d)\<close>.
\<close>

datatype pyval = VNone | VStr string | VInt int

record Document =
  page_content :: string
  metadata :: "string \<rightharpoonup> pyval"

definition get_or :: "(string \<rightharpoonup> pyval) \<Rightarrow> string \<Rightarrow> pyval \<Rightarrow> pyval" where
  "get_or m k d = (case m k of Some v \<Rightarrow> v | None \<Rightarrow> d)"

text \<open>\<open>split_nl s\<close> is \<open>s.split("\n")\<close> and \<open>join_nl xs\<close> is \<open>"\n".join(xs)\<close>.\<close>

fun split_nl :: "string \<Rightarrow> string list" where
  "split_nl [] = [[]]"
| "split_nl (c # cs) =
     (if c = CHR 0x0A then [] # split_nl cs
      else (case split_nl cs of [] \<Rightarrow> [[c]] | l # ls \<Rightarrow> (c # l) # ls))"

fun join_nl :: "string list \<Rightarrow> string" where
  "join_nl [] = []"
| "join_nl [x] = x"
| "join_nl (x # y # ys) = x @ CHR 0x0A # join_nl (y # ys)"

text \<open>
  The two branches of \<open>if ":" in line\<close> in \<open>ingest\<close>: with \<open>parts = line.split(":", 1)\<close>,
  the speaker is \<open>parts[0].strip()\<close> and the content is \<open>parts[1].strip()\<close>; a line
  without a colon is its own content and has the speaker "Unknown".
\<close>

definition line_speaker :: "string \<Rightarrow> string" where
  "line_speaker line =
     (if CHR '':'' \<in> set line then strip (takeWhile (\<lambda>c. c \<noteq> CHR '':'') line)
      else ''Unknown'')"

definition line_content :: "string \<Rightarrow> string" where
  "line_content line =
     (if CHR '':'' \<in> set line then strip (tl (dropWhile (\<lambda>c. c \<noteq> CHR '':'') line))
      else line)"

text \<open>
  The parameter \<open>metadata\<close> of \<open>ingest\<close> and \<open>process\<close> is \<open>extra\<close> here, since
  \<open>metadata\<close> names the field. Updating a dict with an empty dict changes nothing, so
  \<open>if metadata:\<close> needs no test of its own for a dict.
\<close>

fun ingest_loop ::
  "string \<Rightarrow> (string \<rightharpoonup> pyval) option \<Rightarrow> nat \<Rightarrow> string list \<Rightarrow> Document list \<Rightarrow> Document list" where
  "ingest_loop source extra i [] documents = documents"
| "ingest_loop source extra i (line # rest) documents =
     (if strip line \<noteq> []
      then (let doc_metadata =
                  [''source'' \<mapsto> VStr source, ''line_index'' \<mapsto> VInt (int i),
                   ''original_text'' \<mapsto> VStr line, ''speaker'' \<mapsto> VStr (line_speaker line)];
                doc_metadata' = (case extra of None \<Rightarrow> doc_metadata
                                 | Some m \<Rightarrow> doc_metadata ++ m)
            in ingest_loop source extra (i + 1) rest
                 (documents @ [\<lparr>page_content = line_content line, metadata = doc_metadata'\<rparr>]))
      else ingest_loop source extra (i + 1) rest documents)"

definition ingest :: "string \<Rightarrow> string \<Rightarrow> (string \<rightharpoonup> pyval) option \<Rightarrow> Document list" where
  "ingest text source extra = ingest_loop source extra 0 (split_nl (strip text)) []"

definition speaker_chunk :: "string list \<Rightarrow> int \<Rightarrow> pyval \<Rightarrow> pyval \<Rightarrow> Document" where
  "speaker_chunk current_chunk_content chunk_index current_speaker src =
     \<lparr>page_content = join_nl current_chunk_content,
      metadata = [''chunk_index'' \<mapsto> VInt chunk_index,
                  ''chunk_strategy'' \<mapsto> VStr ''speaker_turns'',
                  ''speaker'' \<mapsto> current_speaker,
                  ''num_lines'' \<mapsto> VInt (int (length current_chunk_content)),
                  ''source'' \<mapsto> src]\<rparr>"

text \<open>
  The loop of \<open>chunk_by_speaker_turns\<close> over the documents; its state is \<open>chunks\<close>,
  \<open>current_chunk_content\<close>, \<open>current_speaker\<close> and \<open>chunk_index\<close>.
\<close>

fun turns_loop ::
  "Document list \<Rightarrow> Document list \<Rightarrow> string list \<Rightarrow> pyval \<Rightarrow> int
     \<Rightarrow> Document list \<times> string list \<times> pyval \<times> int" where
  "turns_loop [] chunks current_chunk_content current_speaker chunk_index =
     (chunks, current_chunk_content, current_speaker, chunk_index)"
| "turns_loop (doc # rest) chunks current_chunk_content current_speaker chunk_index =
     (let spk = get_or (metadata doc) ''speaker'' (VStr ''Unknown'');
          (chunks', content', chunk_index') =
            (if current_speaker \<noteq> VNone \<and> spk \<noteq> current_speaker
             then if current_chunk_content \<noteq> []
                  then (chunks @ [speaker_chunk current_chunk_content chunk_index current_speaker
                                    (get_or (metadata doc) ''source'' (VStr ''unknown''))],
                        [], chunk_index + 1)
                  else (chunks, current_chunk_content, chunk_index)
             else (chunks, current_chunk_content, chunk_index))
      in turns_loop rest chunks' (content' @ [page_content doc]) spk chunk_index')"

definition chunk_by_speaker_turns :: "Document list \<Rightarrow> Document list" where
  "chunk_by_speaker_turns documents =
     (if documents = [] then []
      else (case turns_loop documents [] [] VNone 0 of
              (chunks, current_chunk_content, current_speaker, chunk_index) \<Rightarrow>
                if current_chunk_content \<noteq> []
                then chunks @ [speaker_chunk current_chunk_content chunk_index current_speaker
                                 (get_or (metadata (last documents)) ''source'' (VStr ''unknown''))]
                else chunks))"

text \<open>
  \<open>chunk_by_time\<close>. \<open>slices k xs\<close> is the list \<open>[xs[j:j + k] for j in range(0, len(xs), k)]\<close>
  for a step \<open>k\<close> of at least 1, which \<open>max(1, ...)\<close> guarantees. Python's \<open>//\<close> on
  integers is \<open>div\<close>, and a division by zero raises.
\<close>

function slices :: "nat \<Rightarrow> 'a list \<Rightarrow> 'a list list" where
  "slices k xs = (if k = 0 \<or> xs = [] then [] else take k xs # slices k (drop k xs))"
  by pat_completeness auto
termination
  by (relation "measure (\<lambda>(k, xs). length xs)") auto

declare slices.simps [simp del]

definition time_chunk :: "int \<Rightarrow> Document list \<Rightarrow> Document" where
  "time_chunk i chunk_docs =
     \<lparr>page_content = join_nl (map page_content chunk_docs),
      metadata = [''chunk_index'' \<mapsto> VInt i,
                  ''chunk_strategy'' \<mapsto> VStr ''time_based'',
                  ''num_lines'' \<mapsto> VInt (int (length chunk_docs)),
                  ''source'' \<mapsto> (case chunk_docs of
                                   d # ds \<Rightarrow> get_or (metadata d) ''source'' (VStr ''unknown'')
                                 | [] \<Rightarrow> VNone)]\<rparr>"

fun time_loop :: "int \<Rightarrow> Document list list \<Rightarrow> Document list \<Rightarrow> Document list" where
  "time_loop i [] chunks = chunks"
| "time_loop i (chunk_docs # rest) chunks =
     (if chunk_docs \<noteq> [] then time_loop (i + 1) rest (chunks @ [time_chunk i chunk_docs])
      else time_loop (i + 1) rest chunks)"

definition chunk_by_time :: "Document list \<Rightarrow> int \<Rightarrow> exn + Document list" where
  "chunk_by_time documents chunk_size_minutes =
     (let n = int (length documents)
      in if chunk_size_minutes * 30 = 0
         then Inl (ZeroDivisionError ''integer division or modulo by zero'')
         else (let chunk_size = max 1 (n div max 1 (n div (chunk_size_minutes * 30)))
               in Inr (time_loop 0 (slices (nat chunk_size) documents) [])))"

definition CHUNK_SIZE_MINUTES :: int where
  "CHUNK_SIZE_MINUTES = 2"

definition process ::
  "string \<Rightarrow> string \<Rightarrow> string \<Rightarrow> (string \<rightharpoonup> pyval) option \<Rightarrow> exn + Document list" where
  "process chunk_strategy text source extra =
     (let documents = ingest text source extra
      in if chunk_strategy = ''speaker_turns'' then Inr (chunk_by_speaker_turns documents)
         else if chunk_strategy = ''time_based'' then chunk_by_time documents CHUNK_SIZE_MINUTES
         else Inr (chunk_by_speaker_turns documents))"

text \<open>
  The words of the spec for what the chunks are compared with: the transcript's non-empty
  lines, and the lines read back from the chunks in their order.
\<close>

definition nonempty_lines :: "string \<Rightarrow> string list" where
  "nonempty_lines text = filter (\<lambda>line. line \<noteq> []) (split_nl text)"

definition chunk_lines :: "Document list \<Rightarrow> string list" where
  "chunk_lines chunks = concat (map (\<lambda>c. split_nl (page_content c)) chunks)"

text \<open>The chunks are numbered contiguously from 0 in the order of the list.\<close>

definition indexed :: "Document list \<Rightarrow> bool" where
  "indexed chunks =
     (map (\<lambda>c. metadata c ''chunk_index'') chunks
        = map (\<lambda>i. Some (VInt (int i))) [0..<length chunks])"

section \<open>Sample inputs\<close>

text \<open>
  A concrete instance of the library parameters, of the outside world and of the chains,
  for evaluating the model. The sample library functions agree with Python on the values
  used below: \<open>sample_float_str\<close> prints three floats, \<open>sample_py_float\<close> reads five
  texts, \<open>sample_loads\<close> parses one array, \<open>sample_make_item\<close> reads the fields \<open>task\<close>
  and \<open>source_chunk\<close>, and \<open>sample_int_field\<close> accepts integers. The collaborator
  \<open>answering text\<close> always returns \<open>text\<close>, \<open>unreachable\<close> always raises, and the
  sample clock always reads 0.
\<close>

definition sample_float_str :: "pyfloat \<Rightarrow> string" where
  "sample_float_str x =
     (if x = Finite (1/10) then ''0.1''
      else if x = Finite (2/5) then ''0.4''
      else if x = Finite (9/10) then ''0.9''
      else ''nan'')"

definition sample_py_float :: "string \<Rightarrow> pyfloat option" where
  "sample_py_float s =
     (if s = ''0.9'' then Some (Finite (9/10))
      else if s = ''7.5'' then Some (Finite (15/2))
      else if s = ''-3'' then Some (Finite (- 3))
      else if s = ''inf'' then Some PosInf
      else if s = ''nan'' then Some NaN
      else None)"

definition sample_int_field :: "json \<Rightarrow> int option" where
  "sample_int_field v = (case v of JInt n \<Rightarrow> Some n | _ \<Rightarrow> None)"

definition sample_array_text :: string where
  "sample_array_text =
     ''[{'' @ [CHR 0x22] @ ''task'' @ [CHR 0x22] @ '': '' @ [CHR 0x22] @ ''Send the report''
       @ [CHR 0x22] @ '', '' @ [CHR 0x22] @ ''source_chunk'' @ [CHR 0x22] @ '': 7}]''"

definition sample_loads :: "string \<Rightarrow> exn + json" where
  "sample_loads s =
     (if s = sample_array_text
      then Inr (JArr [JObj [(''task'', JStr ''Send the report''), (''source_chunk'', JInt 7)]])
      else Inl (JSONDecodeError ''Expecting value: line 1 column 1 (char 0)''))"

definition sample_make_item :: "(string \<times> json) list \<Rightarrow> ActionItem option" where
  "sample_make_item d =
     (case map_of d ''task'' of
        Some (JStr t) \<Rightarrow>
          Some \<lparr>task = t, owner = ''Unassigned'', deadline = None, confidence = Finite (1/2),
                source_chunk = (case map_of d ''source_chunk'' of
                                  Some (JInt n) \<Rightarrow> Some n | _ \<Rightarrow> None),
                speaker = None, notes = None\<rparr>
      | _ \<Rightarrow> None)"

definition sample_lib :: pylib where
  "sample_lib =
     \<lparr>float_str = sample_float_str, py_float = sample_py_float,
      json_loads = sample_loads, dumps_items = (\<lambda>xs. ''[...]''),
      make_item = sample_make_item, int_field = sample_int_field,
      validation_text = (\<lambda>a b. ''2 validation errors for ReducePhaseOutput'')\<rparr>"

definition answering :: "string \<Rightarrow> unit env" where
  "answering text = \<lparr>llm_invoke = (\<lambda>prompt w. (Inr text, w)), time_time = (\<lambda>w. (0, w))\<rparr>"

definition unreachable :: "unit env" where
  "unreachable =
     \<lparr>llm_invoke = (\<lambda>prompt w. (Inl (OtherError ''Connection error.''), w)),
      time_time = (\<lambda>w. (0, w))\<rparr>"

definition sample_chain :: Chain where
  "sample_chain = \<lparr>system_prompt = ''You extract action items.'',
                    user_prompt_template = (\<lambda>x. Inr (''Input: '' @ x))\<rparr>"

definition start :: "unit world" where
  "start = \<lparr>llm_calls = [], outside = ()\<rparr>"

definition sample_response :: string where
  "sample_response = ''Here are the items: '' @ sample_array_text @ '' Done.''"

definition review_item :: "pyfloat \<Rightarrow> ActionItem" where
  "review_item c =
     \<lparr>task = ''Review the thing with the team'', owner = ''Sarah'', deadline = None,
      confidence = c, source_chunk = None, speaker = None, notes = None\<rparr>"

definition asap_item :: "string \<Rightarrow> string \<Rightarrow> pyfloat \<Rightarrow> ActionItem" where
  "asap_item t ow c =
     \<lparr>task = t, owner = ow, deadline = Some ''ASAP'',
      confidence = c, source_chunk = None, speaker = None, notes = None\<rparr>"

section \<open>Properties of validation.py\<close>

subsection \<open>Strings and floats\<close>

lemma strip_Nil: "strip [] = []"
  by (simp add: strip_def lstrip_def rstrip_def)

lemma float_le_not_lt: "float_le a b \<Longrightarrow> \<not> float_lt b a"
  by (cases a; cases b) simp_all

lemma review_task_not_blank: "strip ''Review the thing with the team'' \<noteq> []"
  by (simp add: strip_def lstrip_def rstrip_def py_isspace_def)

lemma review_task_vague:
  "list_ex (\<lambda>term. py_in term (lower ''Review the thing with the team'')) vague_terms"
  by code_simp

lemma send_report_not_blank: "strip ''Send the report'' \<noteq> []"
  by (simp add: strip_def lstrip_def rstrip_def py_isspace_def)

lemma send_report_not_vague:
  "\<not> list_ex (\<lambda>term. py_in term (lower ''Send the report'')) vague_terms"
  by code_simp

subsection \<open>validate_item\<close>

text \<open>
  C4 (as the code has it). An item whose task is "Review the thing with the team" is
  rejected whatever its confidence and the threshold are. The rules are tried in order and
  the first match gives the reason: when the confidence is below the threshold the reason
  is the low-confidence one, citing both values; otherwise it is the vagueness reason,
  the fixed text "Task description is too vague".
\<close>

theorem vague_task_rejected:
  "task item = ''Review the thing with the team'' \<Longrightarrow>
   validate_item L th item =
     (False, if float_lt (confidence item) th
             then ''Confidence too low ('' @ float_str L (confidence item) @ '' < ''
                    @ float_str L th @ '')''
             else ''Task description is too vague'')"
  by (simp add: validate_item_def review_task_not_blank review_task_vague)

theorem vague_task_rejected_witness:
  "validate_item sample_lib (Finite (2/5)) (review_item (Finite (9/10)))
     = (False, ''Task description is too vague'')"
  using vague_task_rejected [of "review_item (Finite (9/10))" sample_lib "Finite (2/5)"]
  by (simp add: review_item_def)

text \<open>
  C4 as stated fails: with confidence 0.1 and threshold 0.4 the item is rejected with the
  low-confidence reason, not with the vagueness reason.
\<close>

theorem vague_reason_counterexample:
  "validate_item sample_lib (Finite (2/5)) (review_item (Finite (1/10)))
     = (False, ''Confidence too low (0.1 < 0.4)'')
   \<and> snd (validate_item sample_lib (Finite (2/5)) (review_item (Finite (1/10))))
     \<noteq> ''Task description is too vague''"
  by (simp add: validate_item_def review_item_def sample_lib_def sample_float_str_def)

text \<open>
  C5 (as the code has it). For every item whose task is not empty after stripping
  whitespace and contains no vague term: if its confidence is strictly below the
  threshold, it is rejected with a reason citing the confidence and the threshold; the
  same item with any confidence equal to or above the threshold is accepted.
\<close>

theorem confidence_threshold_rule:
  assumes "strip (task item) \<noteq> []"
    and "\<not> list_ex (\<lambda>term. py_in term (lower (task item))) vague_terms"
  shows "(float_lt (confidence item) th \<longrightarrow>
            validate_item L th item =
              (False, ''Confidence too low ('' @ float_str L (confidence item) @ '' < ''
                        @ float_str L th @ '')''))
       \<and> (\<forall>c. float_le th c \<longrightarrow>
            validate_item L th (item\<lparr>confidence := c\<rparr>) = (True, ''Valid''))"
proof -
  from assms(1) have ne: "task item \<noteq> []"
    by (auto simp: strip_Nil)
  show ?thesis
    using assms ne by (simp add: validate_item_def float_le_not_lt)
qed

theorem confidence_threshold_rule_witness:
  "validate_item sample_lib (Finite (2/5)) (asap_item ''Send the report'' ''Sarah'' (Finite (1/10)))
     = (False, ''Confidence too low (0.1 < 0.4)'')
   \<and> validate_item sample_lib (Finite (2/5)) (asap_item ''Send the report'' ''Sarah'' (Finite (2/5)))
     = (True, ''Valid'')"
proof -
  let ?i = "asap_item ''Send the report'' ''Sarah'' (Finite (1/10))"
  have a: "strip (task ?i) \<noteq> []"
    by (simp add: asap_item_def send_report_not_blank)
  have b: "\<not> list_ex (\<lambda>term. py_in term (lower (task ?i))) vague_terms"
    by (simp add: asap_item_def send_report_not_vague)
  have c: "?i\<lparr>confidence := Finite (2/5)\<rparr> = asap_item ''Send the report'' ''Sarah'' (Finite (2/5))"
    by (simp add: asap_item_def)
  show ?thesis
    using confidence_threshold_rule [OF a b, of "Finite (2/5)" sample_lib] c
    by (simp add: asap_item_def sample_lib_def sample_float_str_def)
qed

text \<open>
  C5 as stated fails for a task that is not empty but consists of whitespace only: the
  task \<open>'' ''\<close> is not empty and holds no vague term, the confidence 0.9 exceeds the
  threshold 0.4, and the item is rejected with the reason "Task is empty".
\<close>

theorem blank_task_counterexample:
  "task (asap_item '' '' ''Sarah'' (Finite (9/10))) \<noteq> []
   \<and> \<not> list_ex (\<lambda>term. py_in term (lower (task (asap_item '' '' ''Sarah'' (Finite (9/10))))))
         vague_terms
   \<and> float_le (Finite (2/5)) (confidence (asap_item '' '' ''Sarah'' (Finite (9/10))))
   \<and> validate_item sample_lib (Finite (2/5)) (asap_item '' '' ''Sarah'' (Finite (9/10)))
       = (False, ''Task is empty'')"
proof -
  have s: "strip '' '' = []"
    by (simp add: strip_def lstrip_def rstrip_def py_isspace_def)
  have v: "\<not> list_ex (\<lambda>term. py_in term (lower '' '')) vague_terms"
    by code_simp
  show ?thesis
    using s v by (simp add: validate_item_def asap_item_def)
qed

subsection \<open>validate_batch\<close>

lemma validate_loop_filter:
  "validate_loop L th h xs v i =
     (v @ filter (\<lambda>r. fst (validate_item L th (h r))) xs,
      i @ filter (\<lambda>r. \<not> fst (validate_item L th (h r))) xs)"
  by (induction xs arbitrary: v i) simp_all

lemma mset_filter_split: "mset (filter P xs) + mset (filter (\<lambda>x. \<not> P x) xs) = mset xs"
  by (induction xs) simp_all

text \<open>
  C10. \<open>validate_batch\<close> returns the accepted objects and the rejected objects of the
  input, each list in the input's order: as multisets the two lists add up to the input,
  no object is in both, the lengths add up to the input's length, and each list is a
  subsequence of the input.
\<close>

theorem validate_batch_partition:
  "validate_batch L th h items =
     (filter (\<lambda>r. fst (validate_item L th (h r))) items,
      filter (\<lambda>r. \<not> fst (validate_item L th (h r))) items)
   \<and> mset (fst (validate_batch L th h items)) + mset (snd (validate_batch L th h items))
       = mset items
   \<and> set (fst (validate_batch L th h items)) \<inter> set (snd (validate_batch L th h items)) = {}
   \<and> length (fst (validate_batch L th h items)) + length (snd (validate_batch L th h items))
       = length items
   \<and> subseq (fst (validate_batch L th h items)) items
   \<and> subseq (snd (validate_batch L th h items)) items"
proof -
  have eq: "validate_batch L th h items =
     (filter (\<lambda>r. fst (validate_item L th (h r))) items,
      filter (\<lambda>r. \<not> fst (validate_item L th (h r))) items)"
    by (simp add: validate_batch_def validate_loop_filter)
  have m: "mset (fst (validate_batch L th h items)) + mset (snd (validate_batch L th h items))
       = mset items"
    by (simp only: eq fst_conv snd_conv mset_filter_split)
  have d: "set (fst (validate_batch L th h items)) \<inter> set (snd (validate_batch L th h items)) = {}"
    unfolding eq by auto
  have l: "length (fst (validate_batch L th h items)) + length (snd (validate_batch L th h items))
       = length items"
    unfolding eq by (simp add: sum_length_filter_compl)
  show ?thesis using eq m d l by simp
qed

subsection \<open>handle_edge_cases\<close>

lemma edge_step_same:
  "edge_step item h item = flag_vague_deadline (handle_missing_fields (h item))"
  by (simp add: edge_step_def)

lemma edge_step_other: "r \<noteq> item \<Longrightarrow> edge_step item h r = h r"
  by (simp add: edge_step_def)

lemma edge_loop_fold:
  "edge_loop items acc h = (acc @ items, fold edge_step items h)"
  by (induction items arbitrary: acc h) (simp_all add: edge_step_def)

lemma fold_edge_step_other:
  "r \<notin> set items \<Longrightarrow> fold edge_step items h r = h r"
  by (induction items arbitrary: h) (simp_all add: edge_step_other)

lemma fold_edge_step_distinct:
  "distinct items \<Longrightarrow> item \<in> set items \<Longrightarrow>
   fold edge_step items h item = flag_vague_deadline (handle_missing_fields (h item))"
proof (induction items arbitrary: h)
  case Nil
  then show ?case by simp
next
  case (Cons x xs)
  show ?case
  proof (cases "x = item")
    case True
    with Cons.prems have "item \<notin> set xs" by simp
    then have "fold edge_step xs (edge_step x h) item = edge_step x h item"
      by (rule fold_edge_step_other)
    then show ?thesis using True by (simp add: edge_step_same)
  next
    case False
    with Cons.prems have "item \<in> set xs" "distinct xs" by simp_all
    then have "fold edge_step xs (edge_step x h) item
                 = flag_vague_deadline (handle_missing_fields (edge_step x h item))"
      using Cons.IH by blast
    moreover have "edge_step x h item = h item"
      using False by (simp add: edge_step_other)
    ultimately show ?thesis by simp
  qed
qed

lemma hmf_task: "task (handle_missing_fields i) = task i"
  by (simp add: handle_missing_fields_def Let_def)

lemma hmf_confidence: "confidence (handle_missing_fields i) = confidence i"
  by (simp add: handle_missing_fields_def Let_def)

lemma hmf_owner:
  "owner (handle_missing_fields i) = (if strip (owner i) = [] then ''Unassigned'' else owner i)"
  by (auto simp add: handle_missing_fields_def Let_def strip_Nil)

lemma hmf_deadline:
  "deadline i = Some d \<Longrightarrow> strip d \<noteq> [] \<Longrightarrow> deadline (handle_missing_fields i) = Some d"
  by (auto simp add: handle_missing_fields_def Let_def strip_Nil)

lemma hmf_notes: "notes i = None \<Longrightarrow> notes (handle_missing_fields i) = None"
  by (simp add: handle_missing_fields_def Let_def)

lemma fvd_task: "task (flag_vague_deadline i) = task i"
  by (simp add: flag_vague_deadline_def Let_def)

lemma fvd_owner: "owner (flag_vague_deadline i) = owner i"
  by (simp add: flag_vague_deadline_def Let_def)

lemma fvd_confidence: "confidence (flag_vague_deadline i) = confidence i"
  by (simp add: flag_vague_deadline_def Let_def)

lemma fvd_asap:
  "deadline i = Some ''ASAP'' \<Longrightarrow> notes i = None \<Longrightarrow>
   notes (flag_vague_deadline i) = Some '' [DEADLINE NEEDS CLARIFICATION]''"
  by (simp add: flag_vague_deadline_def Let_def vague_deadlines_def startswith_def)

lemma asap_not_blank: "strip ''ASAP'' \<noteq> []"
  by (simp add: strip_def lstrip_def rstrip_def py_isspace_def)

text \<open>
  C8 (as the code has it). Let the input list hold pairwise distinct objects. For every
  object of the list with \<open>deadline = "ASAP"\<close> and \<open>notes = None\<close>, \<open>handle_edge_cases\<close>
  returns the same list of objects, and afterwards the object's notes are exactly
  " [DEADLINE NEEDS CLARIFICATION]", its task and confidence are unchanged, and its owner
  is unchanged unless it was empty or whitespace only, in which case it is "Unassigned".
\<close>

theorem handle_edge_cases_asap:
  assumes "distinct items" and "item \<in> set items"
    and "deadline (h item) = Some ''ASAP''" and "notes (h item) = None"
  shows "fst (handle_edge_cases items h) = items
       \<and> notes (snd (handle_edge_cases items h) item) = Some '' [DEADLINE NEEDS CLARIFICATION]''
       \<and> task (snd (handle_edge_cases items h) item) = task (h item)
       \<and> confidence (snd (handle_edge_cases items h) item) = confidence (h item)
       \<and> owner (snd (handle_edge_cases items h) item)
           = (if strip (owner (h item)) = [] then ''Unassigned'' else owner (h item))"
proof -
  have r: "handle_edge_cases items h = (items, fold edge_step items h)"
    by (simp add: handle_edge_cases_def edge_loop_fold)
  have s: "fold edge_step items h item = flag_vague_deadline (handle_missing_fields (h item))"
    using assms(1,2) by (rule fold_edge_step_distinct)
  have d: "deadline (handle_missing_fields (h item)) = Some ''ASAP''"
    using assms(3) asap_not_blank by (rule hmf_deadline)
  have n: "notes (handle_missing_fields (h item)) = None"
    using assms(4) by (rule hmf_notes)
  show ?thesis
    unfolding r s fst_conv snd_conv
    by (simp add: fvd_asap [OF d n] fvd_task fvd_owner fvd_confidence hmf_task hmf_confidence
        hmf_owner)
qed

theorem handle_edge_cases_asap_witness:
  "fst (handle_edge_cases [0, 1] (\<lambda>r. asap_item ''Send the report'' ''Sarah'' (Finite (9/10))))
     = [0, 1]
   \<and> notes (snd (handle_edge_cases [0, 1]
               (\<lambda>r. asap_item ''Send the report'' ''Sarah'' (Finite (9/10)))) 1)
       = Some '' [DEADLINE NEEDS CLARIFICATION]''
   \<and> task (snd (handle_edge_cases [0, 1]
               (\<lambda>r. asap_item ''Send the report'' ''Sarah'' (Finite (9/10)))) 1)
       = ''Send the report''
   \<and> confidence (snd (handle_edge_cases [0, 1]
               (\<lambda>r. asap_item ''Send the report'' ''Sarah'' (Finite (9/10)))) 1)
       = Finite (9/10)
   \<and> owner (snd (handle_edge_cases [0, 1]
               (\<lambda>r. asap_item ''Send the report'' ''Sarah'' (Finite (9/10)))) 1)
       = ''Sarah''"
proof -
  let ?h = "\<lambda>r::ref. asap_item ''Send the report'' ''Sarah'' (Finite (9/10))"
  have a: "distinct [0, 1::ref]" by simp
  have b: "(1::ref) \<in> set [0, 1]" by simp
  have c: "deadline (?h 1) = Some ''ASAP''" by (simp add: asap_item_def)
  have d: "notes (?h 1) = None" by (simp add: asap_item_def)
  have e: "strip ''Sarah'' \<noteq> []"
    by (simp add: strip_def lstrip_def rstrip_def py_isspace_def)
  show ?thesis
    using handle_edge_cases_asap [OF a b c d] e by (simp add: asap_item_def)
qed

text \<open>
  C8 as stated fails for an accepted item whose owner is the empty text: the item passes
  \<open>validate_item\<close>, and \<open>handle_edge_cases\<close> changes its owner to "Unassigned".
\<close>

theorem owner_backfill_counterexample:
  "validate_item sample_lib (Finite (2/5)) (asap_item ''Send the report'' [] (Finite (9/10)))
     = (True, ''Valid'')
   \<and> owner (snd (handle_edge_cases [0]
               (\<lambda>r. asap_item ''Send the report'' [] (Finite (9/10)))) 0) = ''Unassigned''
   \<and> owner (snd (handle_edge_cases [0]
               (\<lambda>r. asap_item ''Send the report'' [] (Finite (9/10)))) 0)
       \<noteq> owner (asap_item ''Send the report'' [] (Finite (9/10)))"
proof -
  have v: "validate_item sample_lib (Finite (2/5))
             (asap_item ''Send the report'' [] (Finite (9/10))) = (True, ''Valid'')"
    by (simp add: validate_item_def asap_item_def send_report_not_blank send_report_not_vague)
  have o: "owner (snd (handle_edge_cases [0]
               (\<lambda>r. asap_item ''Send the report'' [] (Finite (9/10)))) 0) = ''Unassigned''"
    by (simp add: handle_edge_cases_def fvd_owner hmf_owner strip_Nil asap_item_def)
  show ?thesis using v o by (simp add: asap_item_def)
qed

section \<open>Properties of map_chain.py and reduce_chain.py\<close>

subsection \<open>Locating the JSON text\<close>

lemma length_takeWhile_neq: "b \<in> set xs \<Longrightarrow> length (takeWhile (\<lambda>x. x \<noteq> b) xs) < length xs"
  by (induction xs) auto

lemma rfind_in_suffix:
  assumes "b \<in> set d"
  shows "py_rfind b (p @ d) + 1 > int (length p)"
proof -
  have "takeWhile (\<lambda>x. x \<noteq> b) (rev d @ rev p) = takeWhile (\<lambda>x. x \<noteq> b) (rev d)"
    using assms by (simp add: takeWhile_append1)
  moreover have "length (takeWhile (\<lambda>x. x \<noteq> b) (rev d)) < length d"
    using assms length_takeWhile_neq [of b "rev d"] by simp
  ultimately show ?thesis using assms by (simp add: py_rfind_def)
qed

lemma rfind_in_prefix:
  assumes "b \<notin> set d"
  shows "py_rfind b (p @ d) + 1 \<le> int (length p)"
proof (cases "b \<in> set p")
  case False
  with assms show ?thesis by (simp add: py_rfind_def)
next
  case True
  have "takeWhile (\<lambda>x. x \<noteq> b) (rev d @ rev p) = rev d @ takeWhile (\<lambda>x. x \<noteq> b) (rev p)"
    using assms by (intro takeWhile_append2) auto
  then show ?thesis using True by (simp add: py_rfind_def)
qed

text \<open>
  The guard of the code says what the spec says: the array (or object) is located exactly
  when a closing bracket occurs after the first opening bracket.
\<close>

lemma located_iff:
  "(py_find a s \<noteq> - 1 \<and> py_rfind b s + 1 > py_find a s) \<longleftrightarrow> bracket_pair a b s"
proof (cases "a \<in> set s")
  case False
  then have "dropWhile (\<lambda>x. x \<noteq> a) s = []" by auto
  with False show ?thesis by (simp add: py_find_def bracket_pair_def del: dropWhile_eq_Nil_conv)
next
  case True
  let ?p = "takeWhile (\<lambda>x. x \<noteq> a) s" and ?d = "dropWhile (\<lambda>x. x \<noteq> a) s"
  have s: "?p @ ?d = s" by simp
  have f: "py_find a s = int (length ?p)" using True by (simp add: py_find_def)
  show ?thesis
  proof (cases "b \<in> set ?d")
    case inD: True
    from rfind_in_suffix [OF inD, of ?p] have "py_rfind b s + 1 > int (length ?p)"
      by (simp only: s)
    with inD f show ?thesis by (simp add: bracket_pair_def)
  next
    case notD: False
    from rfind_in_prefix [OF notD, of ?p] have "py_rfind b s + 1 \<le> int (length ?p)"
      by (simp only: s)
    with notD f show ?thesis by (simp add: bracket_pair_def)
  qed
qed

subsection \<open>consolidate\<close>

lemma llm_calls_now: "llm_calls (snd (now E s)) = llm_calls s"
  by (simp add: now_def split: prod.splits)

text \<open>
  C7. \<open>consolidate\<close> applied to the empty list returns no items and both counters
  0, and it sends no prompt to the collaborator: the list of prompts sent is the same
  after the call as before it.
\<close>

theorem consolidate_empty:
  "fst (consolidate L E self [] s) =
     \<lparr>reduce_items = [], duplicates_removed = 0, fields_filled = 0,
      total_processing_time = 0, reduce_notes = None\<rparr>
   \<and> llm_calls (snd (consolidate L E self [] s)) = llm_calls s"
proof -
  have "consolidate L E self [] s =
          (\<lparr>reduce_items = [], duplicates_removed = 0, fields_filled = 0,
            total_processing_time = 0, reduce_notes = None\<rparr>, snd (now E s))"
    by (simp add: consolidate_def split: prod.splits)
  then show ?thesis by (simp add: llm_calls_now)
qed

lemma reduce_failure_fields:
  "reduce_items (fst (reduce_failure E items t0 note s)) = items"
  "duplicates_removed (fst (reduce_failure E items t0 note s)) = 0"
  "fields_filled (fst (reduce_failure E items t0 note s)) = 0"
  "reduce_notes (fst (reduce_failure E items t0 note s)) = Some note"
  by (simp_all add: reduce_failure_def split: prod.splits)

lemma consolidate_reply:
  assumes "items \<noteq> []"
    and "user_prompt_template self (dumps_items L items) = Inr p"
    and "invoke E (full_prompt self p) (snd (now E s)) = (Inr response_text, s2)"
  shows "consolidate L E self items s =
           parse_reduce_response L E response_text items (fst (now E s)) s2"
proof (cases "now E s")
  case (Pair t0 s1)
  with assms show ?thesis by (simp add: consolidate_def)
qed

lemma locate_object_none:
  "\<not> bracket_pair CHR ''{'' CHR ''}'' response_text \<Longrightarrow>
   locate_object L response_text = Inr (JObj [(''items'', JArr [])])"
  by (simp only: locate_object_def Let_def located_iff if_False)

lemma locate_object_raises:
  "bracket_pair CHR ''{'' CHR ''}'' response_text \<Longrightarrow>
   json_loads L (py_slice response_text (py_find CHR ''{'' response_text)
                   (py_rfind CHR ''}'' response_text + 1)) = Inl e \<Longrightarrow>
   locate_object L response_text = Inl e"
  by (simp only: locate_object_def Let_def located_iff if_True)

text \<open>
  When an object is located and \<open>json.loads\<close> raises on it, \<open>consolidate\<close> returns the
  input items with both counters 0 and a note that records the failure: "Consolidation
  failed: ..." for a \<open>JSONDecodeError\<close>, "Error: ..." for any other exception.
\<close>

lemma consolidate_invalid_json:
  assumes "items \<noteq> []"
    and "user_prompt_template self (dumps_items L items) = Inr p"
    and "invoke E (full_prompt self p) (snd (now E s)) = (Inr response_text, s2)"
    and "bracket_pair CHR ''{'' CHR ''}'' response_text"
    and "json_loads L (py_slice response_text (py_find CHR ''{'' response_text)
                         (py_rfind CHR ''}'' response_text + 1)) = Inl e"
  shows "reduce_items (fst (consolidate L E self items s)) = items
       \<and> duplicates_removed (fst (consolidate L E self items s)) = 0
       \<and> fields_filled (fst (consolidate L E self items s)) = 0
       \<and> reduce_notes (fst (consolidate L E self items s)) = Some (reduce_inner_text e)"
proof -
  have "read_result L response_text = Inl e"
    by (simp add: read_result_def locate_object_raises [OF assms(4,5)])
  then have "parse_reduce_response L E response_text items (fst (now E s)) s2
               = reduce_failure E items (fst (now E s)) (reduce_inner_text e) s2"
    by (simp add: parse_reduce_response_def)
  then show ?thesis
    by (simp add: consolidate_reply [OF assms(1,2,3)] reduce_failure_fields)
qed

text \<open>
  When no object is located, the result data is \<open>{"items": []}\<close>: \<open>consolidate\<close>
  returns no item at all, and the note reads as after a successful consolidation.
\<close>

lemma consolidate_no_object_drops_items:
  assumes "items \<noteq> []"
    and "user_prompt_template self (dumps_items L items) = Inr p"
    and "invoke E (full_prompt self p) (snd (now E s)) = (Inr response_text, s2)"
    and "\<not> bracket_pair CHR ''{'' CHR ''}'' response_text"
    and "int_field L (JInt 0) = Some 0"
  shows "reduce_items (fst (consolidate L E self items s)) = []
       \<and> reduce_notes (fst (consolidate L E self items s))
           = Some (''Consolidated from '' @ str_nat (length items) @ '' items'')"
proof -
  have a: "read_result L response_text = Inr ([], JObj [])"
    by (simp add: read_result_def locate_object_none [OF assms(4)])
  have b: "read_counters L (JObj []) = Inr (0, 0)"
    by (simp add: read_counters_def assms(5))
  show ?thesis
    by (simp add: consolidate_reply [OF assms(1,2,3)] parse_reduce_response_def a b
        split: prod.splits)
qed

lemma str_nat_1: "str_nat (Suc 0) = ''1''"
  by code_simp

text \<open>
  C1 (the code at the failing input). The collaborator answers
  "I could not merge the items.", a text with no brace. \<open>consolidate\<close> applied to one
  item returns the empty list and the note "Consolidated from 1 items", where C1 and the
  comment "Return originals if consolidation fails" of the sibling handler promise the
  input list.
\<close>

theorem consolidate_no_object:
  "reduce_items (fst (consolidate sample_lib (answering ''I could not merge the items.'')
                        sample_chain [asap_item ''Send the report'' ''Sarah'' (Finite (9/10))] start))
     = []
   \<and> reduce_notes (fst (consolidate sample_lib (answering ''I could not merge the items.'')
                        sample_chain [asap_item ''Send the report'' ''Sarah'' (Finite (9/10))] start))
     = Some ''Consolidated from 1 items''"
proof -
  have a: "locate_object sample_lib ''I could not merge the items.'' = Inr (JObj [(''items'', JArr [])])"
    by (simp add: locate_object_def py_find_def)
  have b: "read_result sample_lib ''I could not merge the items.'' = Inr ([], JObj [])"
    by (simp add: read_result_def a)
  have c: "read_counters sample_lib (JObj []) = Inr (0, 0)"
    by (simp add: read_counters_def sample_lib_def sample_int_field_def)
  have d: "dumps_items sample_lib xs = ''[...]''" for xs
    by (simp add: sample_lib_def)
  show ?thesis
    by (simp add: consolidate_def parse_reduce_response_def b c d now_def invoke_def
        answering_def sample_chain_def start_def str_nat_1)
qed

subsection \<open>extract\<close>

lemma map_failure_fields:
  "map_items (fst (map_failure E ci n t0 msg s)) = []"
  "error (fst (map_failure E ci n t0 msg s)) = Some msg"
  by (simp_all add: map_failure_def split: prod.splits)

lemma extract_reply:
  assumes "user_prompt_template self chunk_text = Inr p"
    and "invoke E (full_prompt self p) (snd (now E s)) = (reply, s2)"
  shows "extract L E self chunk_text ci n s =
           (case reply of
              Inl e \<Rightarrow> map_failure E ci n (fst (now E s)) (str_exn e) s2
            | Inr text \<Rightarrow> parse_map_response L E text ci n (fst (now E s)) s2)"
proof (cases "now E s")
  case (Pair t0 s1)
  with assms show ?thesis
    by (cases reply) (simp_all add: extract_def)
qed

lemma locate_array_none:
  "\<not> bracket_pair CHR ''['' CHR '']'' text \<Longrightarrow> locate_array L text = Inr (JArr [])"
  by (simp only: locate_array_def Let_def located_iff if_False)

lemma parse_map_response_none:
  assumes "\<not> bracket_pair CHR ''['' CHR '']'' text"
  shows "map_items (fst (parse_map_response L E text ci n t0 s)) = []"
    and "error (fst (parse_map_response L E text ci n t0 s)) = None"
  using assms
  by (simp_all add: parse_map_response_def locate_array_none split: prod.splits)

lemma no_bracket_sample: "\<not> bracket_pair CHR ''['' CHR '']'' ''No action items in this part.''"
  by (simp add: bracket_pair_def)

text \<open>
  C3 (as the code has it). Let the prompt be built and sent. When the call of the
  collaborator raises, \<open>extract\<close> returns no items and an \<open>error\<close> that holds the text of
  the exception. When the response has no \<open>]\<close> after its first \<open>[\<close>, \<open>extract\<close> returns
  no items and \<open>error\<close> is \<open>None\<close>: the chunk counts as one without action items.
\<close>

theorem extract_skips_chunk:
  assumes "user_prompt_template self chunk_text = Inr p"
    and "invoke E (full_prompt self p) (snd (now E s)) = (reply, s2)"
  shows "(\<forall>e. reply = Inl e \<longrightarrow>
            map_items (fst (extract L E self chunk_text ci n s)) = []
          \<and> error (fst (extract L E self chunk_text ci n s)) = Some (str_exn e))
       \<and> (\<forall>text. reply = Inr text \<and> \<not> bracket_pair CHR ''['' CHR '']'' text \<longrightarrow>
            map_items (fst (extract L E self chunk_text ci n s)) = []
          \<and> error (fst (extract L E self chunk_text ci n s)) = None)"
  by (auto simp add: extract_reply [OF assms] map_failure_fields parse_map_response_none)

theorem extract_skips_chunk_witness:
  "map_items (fst (extract sample_lib unreachable sample_chain ''Alice: hello'' 0 1 start)) = []
   \<and> error (fst (extract sample_lib unreachable sample_chain ''Alice: hello'' 0 1 start))
       = Some ''Connection error.''
   \<and> map_items (fst (extract sample_lib (answering ''No action items in this part.'')
                        sample_chain ''Alice: hello'' 0 1 start)) = []
   \<and> error (fst (extract sample_lib (answering ''No action items in this part.'')
                        sample_chain ''Alice: hello'' 0 1 start)) = None"
proof -
  have p: "user_prompt_template sample_chain ''Alice: hello'' = Inr ''Input: Alice: hello''"
    by (simp add: sample_chain_def)
  have a: "invoke unreachable (full_prompt sample_chain ''Input: Alice: hello'')
             (snd (now unreachable start))
           = (Inl (OtherError ''Connection error.''),
              \<lparr>llm_calls = [full_prompt sample_chain ''Input: Alice: hello''], outside = ()\<rparr>)"
    by (simp add: invoke_def now_def unreachable_def start_def)
  have b: "invoke (answering ''No action items in this part.'')
             (full_prompt sample_chain ''Input: Alice: hello'')
             (snd (now (answering ''No action items in this part.'') start))
           = (Inr ''No action items in this part.'',
              \<lparr>llm_calls = [full_prompt sample_chain ''Input: Alice: hello''], outside = ()\<rparr>)"
    by (simp add: invoke_def now_def answering_def start_def)
  show ?thesis
    using extract_skips_chunk [OF p a, of sample_lib 0 1]
          extract_skips_chunk [OF p b, of sample_lib 0 1] no_bracket_sample
    by simp
qed

text \<open>
  C3 as stated fails for the response "No action items in this part.": no array is
  located, the items are empty, and \<open>error\<close> is \<open>None\<close>, not populated.
\<close>

theorem extract_no_array_counterexample:
  "\<not> bracket_pair CHR ''['' CHR '']'' ''No action items in this part.''
   \<and> map_items (fst (extract sample_lib (answering ''No action items in this part.'')
                        sample_chain ''Alice: hello'' 0 1 start)) = []
   \<and> error (fst (extract sample_lib (answering ''No action items in this part.'')
                        sample_chain ''Alice: hello'' 0 1 start)) = None"
proof -
  have p: "user_prompt_template sample_chain ''Alice: hello'' = Inr ''Input: Alice: hello''"
    by (simp add: sample_chain_def)
  have b: "invoke (answering ''No action items in this part.'')
             (full_prompt sample_chain ''Input: Alice: hello'')
             (snd (now (answering ''No action items in this part.'') start))
           = (Inr ''No action items in this part.'',
              \<lparr>llm_calls = [full_prompt sample_chain ''Input: Alice: hello''], outside = ()\<rparr>)"
    by (simp add: invoke_def now_def answering_def start_def)
  show ?thesis
    by (simp add: extract_reply [OF p b] parse_map_response_none no_bracket_sample)
qed

lemma items_loop_stamped:
  "list_all (\<lambda>i. source_chunk i = Some ci) acc \<Longrightarrow>
   list_all (\<lambda>i. source_chunk i = Some ci) (items_loop L ci elems acc)"
  by (induction L ci elems acc rule: items_loop.induct) (simp_all split: option.splits)

lemma parse_map_response_items:
  "map_items (fst (parse_map_response L E text ci n t0 s)) = []
   \<or> (\<exists>elems. map_items (fst (parse_map_response L E text ci n t0 s)) = items_loop L ci elems [])"
  by (auto simp add: parse_map_response_def map_failure_fields split: prod.splits sum.splits)

lemma extract_items:
  "map_items (fst (extract L E self chunk_text ci n s)) = []
   \<or> (\<exists>elems. map_items (fst (extract L E self chunk_text ci n s)) = items_loop L ci elems [])"
proof (cases "now E s")
  case (Pair t0 s1)
  show ?thesis
  proof (cases "user_prompt_template self chunk_text")
    case (Inl e)
    with Pair show ?thesis by (simp add: extract_def map_failure_fields)
  next
    case (Inr p)
    obtain reply s2 where r: "invoke E (full_prompt self p) s1 = (reply, s2)"
      by (cases "invoke E (full_prompt self p) s1")
    show ?thesis
    proof (cases reply)
      case (Inl e)
      with Pair Inr r show ?thesis by (simp add: extract_def map_failure_fields)
    next
      case reply: (Inr response_text)
      with Pair Inr r have "extract L E self chunk_text ci n s =
          parse_map_response L E response_text ci n t0 s2"
        by (simp add: extract_def)
      then show ?thesis
        using parse_map_response_items [of L E response_text ci n t0 s2] by simp
    qed
  qed
qed

text \<open>
  C9. Every item that \<open>extract\<close> returns has \<open>source_chunk\<close> equal to the
  \<open>chunk_index\<close> argument, whatever the collaborator's JSON gave for it.
\<close>

theorem extract_stamps_source_chunk:
  "\<forall>item \<in> set (map_items (fst (extract L E self chunk_text chunk_index total_chunks s))).
     source_chunk item = Some chunk_index"
proof -
  have "list_all (\<lambda>i. source_chunk i = Some chunk_index)
          (map_items (fst (extract L E self chunk_text chunk_index total_chunks s)))"
    using extract_items [of L E self chunk_text chunk_index total_chunks s]
          items_loop_stamped [of chunk_index "[]" L]
    by auto
  then show ?thesis by (simp add: list_all_iff)
qed

lemma locate_sample: "locate_array sample_lib sample_response
   = Inr (JArr [JObj [(''task'', JStr ''Send the report''), (''source_chunk'', JInt 7)]])"
  by (simp add: locate_array_def sample_response_def sample_array_text_def py_find_def
      py_rfind_def py_slice_def sample_lib_def sample_loads_def)

lemma extract_sample:
  "map_items (fst (extract sample_lib (answering sample_response) sample_chain
                     ''Alice: I will send the report'' 3 5 start))
   = [\<lparr>task = ''Send the report'', owner = ''Unassigned'', deadline = None,
       confidence = Finite (1/2), source_chunk = Some 3, speaker = None, notes = None\<rparr>]"
proof -
  have m: "make_item sample_lib [(''task'', JStr ''Send the report''), (''source_chunk'', JInt 7)]
     = Some \<lparr>task = ''Send the report'', owner = ''Unassigned'', deadline = None,
       confidence = Finite (1/2), source_chunk = Some 7, speaker = None, notes = None\<rparr>"
    by (simp add: sample_lib_def sample_make_item_def)
  show ?thesis
    by (simp add: extract_def parse_map_response_def locate_sample m now_def invoke_def
        answering_def sample_chain_def start_def)
qed

theorem extract_stamps_source_chunk_witness:
  "map_items (fst (extract sample_lib (answering sample_response) sample_chain
                     ''Alice: I will send the report'' 3 5 start)) \<noteq> []
   \<and> list_all (\<lambda>item. source_chunk item = Some 3)
        (map_items (fst (extract sample_lib (answering sample_response) sample_chain
                           ''Alice: I will send the report'' 3 5 start)))"
  using extract_stamps_source_chunk [of sample_lib "answering sample_response" sample_chain
          "''Alice: I will send the report''" 3 5 start]
  by (simp add: list_all_iff extract_sample)

section \<open>Properties of confidence_chain.py\<close>

















section \<open>Properties of document_loader.py\<close>

lemma split_nl_not_Nil: "split_nl s \<noteq> []"
  by (induction s) (simp_all split: list.splits)

lemma split_nl_no_newline: "l \<in> set (split_nl s) \<Longrightarrow> nl \<notin> set l"
proof (induction s arbitrary: l)
  case Nil
  then show ?case by simp
next
  case (Cons c cs)
  then show ?case
    by (cases "split_nl cs") (auto split: if_splits)
qed

lemma split_nl_plain: "nl \<notin> set x \<Longrightarrow> split_nl x = [x]"
  by (induction x) auto

lemma split_nl_append:
  "nl \<notin> set x \<Longrightarrow> split_nl (x @ nl # rest) = x # split_nl rest"
  by (induction x) auto

lemma split_join:
  "xs \<noteq> [] \<Longrightarrow> (\<forall>x \<in> set xs. nl \<notin> set x) \<Longrightarrow> split_nl (join_nl xs) = xs"
proof (induction xs rule: join_nl.induct)
  case 1
  then show ?case by simp
next
  case (2 x)
  then show ?case by (simp add: split_nl_plain)
next
  case (3 x y ys)
  then show ?case by (simp add: split_nl_append)
qed

lemma set_strip: "set (strip s) \<subseteq> set s"
proof -
  have "set (rstrip t) \<subseteq> set t" for t
    unfolding rstrip_def using set_dropWhileD [of _ py_isspace "rev t"] by auto
  moreover have "set (lstrip s) \<subseteq> set s"
    unfolding lstrip_def using set_dropWhileD [of _ py_isspace s] by auto
  ultimately show ?thesis unfolding strip_def by blast
qed

lemma line_content_no_newline: "nl \<notin> set line \<Longrightarrow> nl \<notin> set (line_content line)"
proof -
  assume a: "nl \<notin> set line"
  have "set (tl (dropWhile (\<lambda>c. c \<noteq> CHR '':'') line)) \<subseteq> set line"
    by (metis (no_types, lifting) list.set_sel(2) set_dropWhileD subsetI tl_Nil)
  with a set_strip show ?thesis
    unfolding line_content_def by (auto split: if_splits)
qed

lemma ingest_loop_contents:
  "map page_content (ingest_loop source extra i lines documents) =
     map page_content documents @ map line_content (filter (\<lambda>l. strip l \<noteq> []) lines)"
  by (induction lines arbitrary: i documents) (simp_all add: Let_def)

lemma ingest_contents:
  "map page_content (ingest text source extra) =
     map line_content (filter (\<lambda>l. strip l \<noteq> []) (split_nl (strip text)))"
  by (simp add: ingest_def ingest_loop_contents)

lemma ingest_no_newline:
  "d \<in> set (ingest text source extra) \<Longrightarrow> nl \<notin> set (page_content d)"
proof -
  assume "d \<in> set (ingest text source extra)"
  then have "page_content d \<in> set (map page_content (ingest text source extra))" by simp
  then obtain l where "l \<in> set (split_nl (strip text))" "page_content d = line_content l"
    unfolding ingest_contents by auto
  then show ?thesis using split_nl_no_newline line_content_no_newline by metis
qed

lemma chunk_lines_snoc:
  "chunk_lines (chunks @ [c]) = chunk_lines chunks @ split_nl (page_content c)"
  by (simp add: chunk_lines_def)

lemma speaker_chunk_lines:
  "content \<noteq> [] \<Longrightarrow> (\<forall>x \<in> set content. nl \<notin> set x) \<Longrightarrow>
   split_nl (page_content (speaker_chunk content idx sp src)) = content"
  by (simp add: speaker_chunk_def split_join)

lemma indexed_snoc:
  "indexed chunks \<Longrightarrow> metadata c ''chunk_index'' = Some (VInt (int (length chunks))) \<Longrightarrow>
   indexed (chunks @ [c])"
  by (simp add: indexed_def)

lemma speaker_chunk_index:
  "metadata (speaker_chunk content idx sp src) ''chunk_index'' = Some (VInt idx)"
  by (simp add: speaker_chunk_def)

lemma turns_loop_lines:
  assumes "\<forall>d \<in> set docs. nl \<notin> set (page_content d)"
    and "\<forall>x \<in> set content. nl \<notin> set x"
    and "indexed chunks" and "idx = int (length chunks)"
  shows "\<exists>chunks' content' sp' idx'.
           turns_loop docs chunks content sp idx = (chunks', content', sp', idx')
         \<and> chunk_lines chunks' @ content' = chunk_lines chunks @ content @ map page_content docs
         \<and> (\<forall>x \<in> set content'. nl \<notin> set x)
         \<and> (content \<noteq> [] \<or> docs \<noteq> [] \<longrightarrow> content' \<noteq> [])
         \<and> indexed chunks' \<and> idx' = int (length chunks')"
  using assms
proof (induction docs arbitrary: chunks content sp idx)
  case Nil
  then show ?case by simp
next
  case (Cons doc rest)
  let ?spk = "get_or (metadata doc) ''speaker'' (VStr ''Unknown'')"
  let ?src = "get_or (metadata doc) ''source'' (VStr ''unknown'')"
  have rest_plain: "\<forall>d \<in> set rest. nl \<notin> set (page_content d)"
    and doc_plain: "nl \<notin> set (page_content doc)"
    using Cons.prems(1) by simp_all
  show ?case
  proof (cases "sp \<noteq> VNone \<and> ?spk \<noteq> sp \<and> content \<noteq> []")
    case True
    let ?chunks = "chunks @ [speaker_chunk content idx sp ?src]"
    have step: "turns_loop (doc # rest) chunks content sp idx
                  = turns_loop rest ?chunks [page_content doc] ?spk (idx + 1)"
      using True by (simp add: Let_def)
    have p: "\<forall>x \<in> set [page_content doc]. nl \<notin> set x" using doc_plain by simp
    have i: "indexed ?chunks"
      using Cons.prems(3,4) by (simp add: indexed_snoc speaker_chunk_index)
    have n: "idx + 1 = int (length ?chunks)" using Cons.prems(4) by simp
    from Cons.IH [OF rest_plain p i n, of ?spk]
    obtain chunks' content' sp' idx' where
      r: "turns_loop rest ?chunks [page_content doc] ?spk (idx + 1) = (chunks', content', sp', idx')"
      and l: "chunk_lines chunks' @ content'
                = chunk_lines ?chunks @ [page_content doc] @ map page_content rest"
      and q: "\<forall>x \<in> set content'. nl \<notin> set x" "content' \<noteq> []"
             "indexed chunks'" "idx' = int (length chunks')"
      by auto
    have "chunk_lines ?chunks = chunk_lines chunks @ content"
      using True Cons.prems(2) by (simp add: chunk_lines_snoc speaker_chunk_lines)
    with l have "chunk_lines chunks' @ content'
                   = chunk_lines chunks @ content @ map page_content (doc # rest)"
      by simp
    with step r q show ?thesis by simp
  next
    case False
    have step: "turns_loop (doc # rest) chunks content sp idx
                  = turns_loop rest chunks (content @ [page_content doc]) ?spk idx"
      using False by (auto simp add: Let_def)
    have p: "\<forall>x \<in> set (content @ [page_content doc]). nl \<notin> set x"
      using doc_plain Cons.prems(2) by simp
    from Cons.IH [OF rest_plain p Cons.prems(3,4), of ?spk]
    obtain chunks' content' sp' idx' where
      r: "turns_loop rest chunks (content @ [page_content doc]) ?spk idx
            = (chunks', content', sp', idx')"
      and l: "chunk_lines chunks' @ content'
                = chunk_lines chunks @ (content @ [page_content doc]) @ map page_content rest"
      and q: "\<forall>x \<in> set content'. nl \<notin> set x" "content' \<noteq> []"
             "indexed chunks'" "idx' = int (length chunks')"
      by auto
    from l have "chunk_lines chunks' @ content'
                   = chunk_lines chunks @ content @ map page_content (doc # rest)"
      by simp
    with step r q show ?thesis by simp
  qed
qed

lemma chunk_by_speaker_turns_lines:
  assumes "\<forall>d \<in> set documents. nl \<notin> set (page_content d)"
  shows "chunk_lines (chunk_by_speaker_turns documents) = map page_content documents
       \<and> indexed (chunk_by_speaker_turns documents)"
proof (cases "documents = []")
  case True
  then show ?thesis by (simp add: chunk_by_speaker_turns_def chunk_lines_def indexed_def)
next
  case False
  have e: "\<forall>x \<in> set ([]::string list). nl \<notin> set x" by simp
  have i: "indexed []" by (simp add: indexed_def)
  from turns_loop_lines [OF assms e i, of 0 VNone]
  obtain chunks' content' sp' idx' where
    r: "turns_loop documents [] [] VNone 0 = (chunks', content', sp', idx')"
    and l: "chunk_lines chunks' @ content' = chunk_lines [] @ [] @ map page_content documents"
    and q: "\<forall>x \<in> set content'. nl \<notin> set x" "content' \<noteq> []"
           "indexed chunks'" "idx' = int (length chunks')"
    using False by auto
  let ?last = "speaker_chunk content' idx' sp'
                 (get_or (metadata (last documents)) ''source'' (VStr ''unknown''))"
  have c: "chunk_by_speaker_turns documents = chunks' @ [?last]"
    using False r q(2) by (simp add: chunk_by_speaker_turns_def)
  have "chunk_lines (chunks' @ [?last]) = chunk_lines chunks' @ content'"
    using q(1,2) by (simp add: chunk_lines_snoc speaker_chunk_lines)
  moreover have "indexed (chunks' @ [?last])"
    using q(3,4) by (simp add: indexed_snoc speaker_chunk_index)
  ultimately show ?thesis using c l by (simp add: chunk_lines_def)
qed

lemma slices_Nil: "slices k [] = []"
  by (subst slices.simps) simp

lemma slices_step:
  "0 < k \<Longrightarrow> xs \<noteq> [] \<Longrightarrow> slices k xs = take k xs # slices k (drop k xs)"
  by (subst slices.simps) simp

lemma concat_slices: "0 < k \<Longrightarrow> concat (slices k xs) = xs"
proof (induction k xs rule: slices.induct)
  case (1 k xs)
  show ?case
  proof (cases "xs = []")
    case True
    then show ?thesis by (simp add: slices_Nil)
  next
    case False
    with "1.prems" have "concat (slices k (drop k xs)) = drop k xs"
      using "1.IH" by simp
    with False "1.prems" show ?thesis
      by (simp add: slices_step)
  qed
qed

lemma slices_nonempty: "0 < k \<Longrightarrow> s \<in> set (slices k xs) \<Longrightarrow> s \<noteq> []"
proof (induction k xs arbitrary: s rule: slices.induct)
  case (1 k xs)
  show ?case
  proof (cases "xs = []")
    case True
    with "1.prems" show ?thesis by (simp add: slices_Nil)
  next
    case False
    from "1.prems" False have "s = take k xs \<or> s \<in> set (slices k (drop k xs))"
      by (simp add: slices_step)
    then show ?thesis
    proof
      assume "s = take k xs"
      with False "1.prems"(1) show ?thesis by simp
    next
      assume "s \<in> set (slices k (drop k xs))"
      with False "1.prems"(1) "1.IH" show ?thesis by blast
    qed
  qed
qed

lemma time_chunk_lines:
  "chunk_docs \<noteq> [] \<Longrightarrow> (\<forall>d \<in> set chunk_docs. nl \<notin> set (page_content d)) \<Longrightarrow>
   split_nl (page_content (time_chunk i chunk_docs)) = map page_content chunk_docs"
  by (simp add: time_chunk_def split_join)

lemma time_chunk_index: "metadata (time_chunk i chunk_docs) ''chunk_index'' = Some (VInt i)"
  by (simp add: time_chunk_def)

lemma time_loop_lines:
  assumes "\<forall>s \<in> set ss. s \<noteq> []"
    and "\<forall>s \<in> set ss. \<forall>d \<in> set s. nl \<notin> set (page_content d)"
    and "indexed chunks" and "i = int (length chunks)"
  shows "chunk_lines (time_loop i ss chunks)
           = chunk_lines chunks @ map page_content (concat ss)
       \<and> indexed (time_loop i ss chunks)"
  using assms
proof (induction ss arbitrary: i chunks)
  case Nil
  then show ?case by simp
next
  case (Cons chunk_docs rest)
  let ?chunks = "chunks @ [time_chunk i chunk_docs]"
  have ne: "chunk_docs \<noteq> []" and pl: "\<forall>d \<in> set chunk_docs. nl \<notin> set (page_content d)"
    using Cons.prems(1,2) by simp_all
  have a: "\<forall>s \<in> set rest. s \<noteq> []"
    and b: "\<forall>s \<in> set rest. \<forall>d \<in> set s. nl \<notin> set (page_content d)"
    using Cons.prems(1,2) by simp_all
  have c: "indexed ?chunks"
    using Cons.prems(3,4) by (simp add: indexed_snoc time_chunk_index)
  have d: "i + 1 = int (length ?chunks)" using Cons.prems(4) by simp
  have "time_loop i (chunk_docs # rest) chunks = time_loop (i + 1) rest ?chunks"
    using ne by simp
  moreover have "chunk_lines ?chunks = chunk_lines chunks @ map page_content chunk_docs"
    using ne pl by (simp add: chunk_lines_snoc time_chunk_lines)
  ultimately show ?case
    using Cons.IH [OF a b c d] by simp
qed

lemma chunk_by_time_lines:
  assumes "\<forall>d \<in> set documents. nl \<notin> set (page_content d)"
    and "m * 30 \<noteq> 0"
  shows "\<exists>chunks. chunk_by_time documents m = Inr chunks
       \<and> chunk_lines chunks = map page_content documents \<and> indexed chunks"
proof -
  let ?n = "int (length documents)"
  let ?k = "nat (max 1 (?n div max 1 (?n div (m * 30))))"
  have k: "0 < ?k" by simp
  have r: "chunk_by_time documents m = Inr (time_loop 0 (slices ?k documents) [])"
    using assms(2) by (simp add: chunk_by_time_def Let_def)
  have a: "\<forall>s \<in> set (slices ?k documents). s \<noteq> []"
    using slices_nonempty [OF k] by blast
  have "\<forall>s \<in> set (slices ?k documents). set s \<subseteq> set documents"
  proof
    fix s assume "s \<in> set (slices ?k documents)"
    then have "set s \<subseteq> set (concat (slices ?k documents))" by auto
    then show "set s \<subseteq> set documents" by (simp only: concat_slices [OF k])
  qed
  then have b: "\<forall>s \<in> set (slices ?k documents). \<forall>d \<in> set s. nl \<notin> set (page_content d)"
    using assms(1) by blast
  have i: "indexed []" by (simp add: indexed_def)
  from time_loop_lines [OF a b i, of 0]
  have "chunk_lines (time_loop 0 (slices ?k documents) [])
          = map page_content (concat (slices ?k documents))
      \<and> indexed (time_loop 0 (slices ?k documents) [])"
    by (simp add: chunk_lines_def)
  then show ?thesis using r by (simp only: concat_slices [OF k]) simp
qed

text \<open>
  C2 (as the code has it). For every transcript, strategy name, source and extra
  metadata, \<open>process\<close> returns chunks numbered from 0 in the order of the list, and the
  chunk contents, split at line breaks and concatenated in that order, are exactly the
  contents of the lines of the stripped transcript that are not blank, each once and in
  the original order. The content of a line with a colon is the text after the first
  colon without surrounding whitespace; a line without a colon is its own content.
\<close>

theorem chunks_reproduce_contents:
  "\<exists>chunks. process chunk_strategy text source extra = Inr chunks
     \<and> chunk_lines chunks
         = map line_content (filter (\<lambda>line. strip line \<noteq> []) (split_nl (strip text)))
     \<and> indexed chunks"
proof -
  let ?docs = "ingest text source extra"
  have pl: "\<forall>d \<in> set ?docs. nl \<notin> set (page_content d)"
    using ingest_no_newline by blast
  have sp: "chunk_lines (chunk_by_speaker_turns ?docs) = map page_content ?docs
          \<and> indexed (chunk_by_speaker_turns ?docs)"
    using pl by (rule chunk_by_speaker_turns_lines)
  have "CHUNK_SIZE_MINUTES * 30 \<noteq> 0" by (simp add: CHUNK_SIZE_MINUTES_def)
  with pl have tm: "\<exists>chunks. chunk_by_time ?docs CHUNK_SIZE_MINUTES = Inr chunks
       \<and> chunk_lines chunks = map page_content ?docs \<and> indexed chunks"
    by (rule chunk_by_time_lines)
  have "\<exists>chunks. process chunk_strategy text source extra = Inr chunks
     \<and> chunk_lines chunks = map page_content ?docs \<and> indexed chunks"
  proof (cases "chunk_strategy = ''time_based''")
    case True
    then have "process chunk_strategy text source extra = chunk_by_time ?docs CHUNK_SIZE_MINUTES"
      by (simp add: process_def Let_def)
    with tm show ?thesis by simp
  next
    case False
    then have "process chunk_strategy text source extra = Inr (chunk_by_speaker_turns ?docs)"
      by (simp add: process_def Let_def)
    with sp show ?thesis by simp
  qed
  then show ?thesis by (simp only: ingest_contents)
qed

lemma strip_alice: "strip ''Alice: hello'' = ''Alice: hello''"
  by (simp add: strip_def lstrip_def rstrip_def py_isspace_def)

lemma strip_hello: "strip '' hello'' = ''hello''"
  by (simp add: strip_def lstrip_def rstrip_def py_isspace_def)

lemma sample_ingest: "map page_content (ingest ''Alice: hello'' ''meeting.txt'' None) = [''hello'']"
  by (simp add: ingest_contents strip_alice line_content_def strip_hello)

lemma sample_lines: "nonempty_lines ''Alice: hello'' = [''Alice: hello'']"
  by (simp add: nonempty_lines_def)


text \<open>
  C2 as stated fails for the transcript "Alice: hello": its one non-empty line is
  "Alice: hello", and the one chunk holds "hello".
\<close>

theorem speaker_prefix_counterexample:
  "map_sum id chunk_lines (process ''speaker_turns'' ''Alice: hello'' ''meeting.txt'' None)
     = Inr [''hello'']
   \<and> nonempty_lines ''Alice: hello'' = [''Alice: hello'']
   \<and> map_sum id chunk_lines (process ''speaker_turns'' ''Alice: hello'' ''meeting.txt'' None)
     \<noteq> Inr (nonempty_lines ''Alice: hello'')"
proof -
  let ?docs = "ingest ''Alice: hello'' ''meeting.txt'' None"
  have "\<forall>d \<in> set ?docs. nl \<notin> set (page_content d)"
    using ingest_no_newline by blast
  then have "chunk_lines (chunk_by_speaker_turns ?docs) = map page_content ?docs"
    using chunk_by_speaker_turns_lines by blast
  then have "map_sum id chunk_lines (process ''speaker_turns'' ''Alice: hello'' ''meeting.txt'' None)
     = Inr [''hello'']"
    by (simp add: process_def Let_def sample_ingest)
  then show ?thesis by (simp add: sample_lines)
qed

end
